theory Spec2Isabelle
  imports Main
begin

section \<open>Values, files and the remote endpoint\<close>

text \<open>
  The program of \<^verbatim>\<open>ig_posts_fecther.py\<close> handles decoded JSON only: what
  \<^verbatim>\<open>json.load\<close> and \<^verbatim>\<open>response.json()\<close> return and what \<^verbatim>\<open>json.dump\<close> is
  given. A decoded object is a Python dict, held here as an association list with
  \<open>map_of\<close> as the lookup. Floating-point numbers are left out.
\<close>

datatype json =
    JNull
  | JBool bool
  | JInt int
  | JStr string
  | JArr "json list"
  | JObj "(string \<times> json) list"

text \<open>The exceptions the program can meet.\<close>

datatype error =
    JSONDecodeError
  | UnicodeDecodeError
  | AttributeError
  | TypeError
  | ConnectionError

text \<open>
  A file on disk is described by what reading it as UTF-8 text and decoding that text as
  JSON gives: the empty text and any other text that is no JSON document make
  \<^verbatim>\<open>json.load\<close> raise \<^verbatim>\<open>JSONDecodeError\<close>, bytes that are no UTF-8 make the read raise
  \<^verbatim>\<open>UnicodeDecodeError\<close>, and a JSON document decodes to its value.
\<close>

datatype content =
    Empty_Text
  | Malformed
  | Not_Utf8
  | Json_Doc json

fun json_load :: "content \<Rightarrow> error + json" where
  "json_load Empty_Text = Inl JSONDecodeError"
| "json_load Malformed = Inl JSONDecodeError"
| "json_load Not_Utf8 = Inl UnicodeDecodeError"
| "json_load (Json_Doc v) = Inr v"

text \<open>
  What the program prints, one constructor for each \<^verbatim>\<open>print\<close> of the four functions
  modelled.
\<close>

datatype message =
    Failed_To_Fetch int
  | Fetching_Next int json
  | No_Response
  | No_More_Posts
  | Saved nat string
  | Reached_End

text \<open>
  Every \<^verbatim>\<open>open(..., "w")\<close> followed by \<^verbatim>\<open>json.dump\<close> is recorded: the write of the
  post collection in \<^verbatim>\<open>iterate_and_save_posts\<close> with the path and the list, the write
  of \<^verbatim>\<open>save_resume_state\<close> with the path, the cursor and the count.
\<close>

datatype event =
    Posts_Written string json
  | State_Written string json json

record world =
  files :: "string \<rightharpoonup> content"
  console :: "message list"
  journal :: "event list"
  requests :: nat

text \<open>
  The request that \<^verbatim>\<open>fetch_instagram_posts\<close> builds varies in the user name, the batch
  size and the cursor, which is sent only when it is truthy. The endpoint answers with a
  status and a body, or the call raises. The endpoint is a function of the number of
  requests sent before and of the request; it is stable when the first does not matter.
\<close>

record request =
  username :: string
  after :: "json option"
  first :: int

datatype body = Invalid_Body | Json_Body json

datatype http_result = Net_Exception | Http int body

type_synonym remote = "nat \<Rightarrow> request \<Rightarrow> http_result"

definition stable_remote :: "remote \<Rightarrow> bool" where
  "stable_remote srv \<longleftrightarrow> (\<forall>t. srv t = srv 0)"

section \<open>Python operations on decoded values\<close>

text \<open>Truth value of a decoded value, as \<^verbatim>\<open>if x\<close> and \<^verbatim>\<open>not x\<close> test it.\<close>

fun truthy :: "json \<Rightarrow> bool" where
  "truthy JNull = False"
| "truthy (JBool b) = b"
| "truthy (JInt n) = (n \<noteq> 0)"
| "truthy (JStr s) = (s \<noteq> [])"
| "truthy (JArr xs) = (xs \<noteq> [])"
| "truthy (JObj kvs) = (kvs \<noteq> [])"

text \<open>\<^verbatim>\<open>x.get(key, default)\<close>: only a dict has the method.\<close>

fun py_get :: "json \<Rightarrow> string \<Rightarrow> json \<Rightarrow> error + json" where
  "py_get (JObj kvs) k d = Inr (case map_of kvs k of None \<Rightarrow> d | Some v \<Rightarrow> v)"
| "py_get _ k d = Inl AttributeError"

text \<open>\<^verbatim>\<open>xs.append(x)\<close>: only a list has the method.\<close>

fun py_append :: "json \<Rightarrow> json \<Rightarrow> error + json" where
  "py_append (JArr xs) x = Inr (JArr (xs @ [x]))"
| "py_append _ x = Inl AttributeError"

text \<open>\<^verbatim>\<open>n += 1\<close>: integers and booleans (which are integers in Python) can be added to.\<close>

fun py_incr :: "json \<Rightarrow> error + json" where
  "py_incr (JInt n) = Inr (JInt (n + 1))"
| "py_incr (JBool b) = Inr (JInt ((if b then 1 else 0) + 1))"
| "py_incr _ = Inl TypeError"

text \<open>
  What \<^verbatim>\<open>for edge in edges\<close> runs over: the elements of a list, the keys of a dict, the
  characters of a string; anything else is not iterable.
\<close>

fun py_iter :: "json \<Rightarrow> error + json list" where
  "py_iter (JArr xs) = Inr xs"
| "py_iter (JObj kvs) = Inr (map (\<lambda>kv. JStr (fst kv)) kvs)"
| "py_iter (JStr s) = Inr (map (\<lambda>c. JStr [c]) s)"
| "py_iter _ = Inl TypeError"

section \<open>The state store and the post store\<close>

definition print :: "message \<Rightarrow> world \<Rightarrow> world" where
  "print m w = w\<lparr>console := console w @ [m]\<rparr>"

text \<open>
  \<^verbatim>\<open>load_resume_state\<close>, lines 107 to 111: an absent file gives \<^verbatim>\<open>(None, 0)\<close>; the
  call of \<^verbatim>\<open>json.load\<close> is not guarded, and neither are the two calls of \<^verbatim>\<open>get\<close>.
\<close>

definition load_resume_state :: "world \<Rightarrow> string \<Rightarrow> error + (json \<times> json)" where
  "load_resume_state w resume_file =
     (case files w resume_file of
        None \<Rightarrow> Inr (JNull, JInt 0)
      | Some f \<Rightarrow>
          (case json_load f of
             Inl e \<Rightarrow> Inl e
           | Inr state \<Rightarrow>
               (case py_get state ''after_cursor'' JNull of
                  Inl e \<Rightarrow> Inl e
                | Inr c \<Rightarrow>
                    (case py_get state ''post_count'' (JInt 0) of
                       Inl e \<Rightarrow> Inl e
                     | Inr n \<Rightarrow> Inr (c, n)))))"

text \<open>\<^verbatim>\<open>save_resume_state\<close>, lines 131 to 136.\<close>

definition save_resume_state :: "world \<Rightarrow> string \<Rightarrow> json \<Rightarrow> json \<Rightarrow> world" where
  "save_resume_state w resume_file after_cursor post_count =
     w\<lparr>files := (files w)(resume_file \<mapsto>
            Json_Doc (JObj [(''after_cursor'', after_cursor), (''post_count'', post_count)])),
       journal := journal w @ [State_Written resume_file after_cursor post_count]\<rparr>"

text \<open>
  \<^verbatim>\<open>load_existing_posts\<close>, lines 159 to 165: only \<^verbatim>\<open>json.JSONDecodeError\<close> is caught,
  and the decoded value is returned whatever it is.
\<close>

definition load_existing_posts :: "world \<Rightarrow> string \<Rightarrow> error + json" where
  "load_existing_posts w output_file =
     (case files w output_file of
        None \<Rightarrow> Inr (JArr [])
      | Some f \<Rightarrow>
          (case json_load f of
             Inl JSONDecodeError \<Rightarrow> Inr (JArr [])
           | Inl e \<Rightarrow> Inl e
           | Inr v \<Rightarrow> Inr v))"

section \<open>The fetcher\<close>

text \<open>
  \<^verbatim>\<open>fetch_instagram_posts\<close>, lines 45 to 85. One request is sent. An exception of
  \<^verbatim>\<open>requests.get\<close> is not caught; status 200 returns the decoded body, and
  \<^verbatim>\<open>response.json()\<close> raises on a body that is no JSON; any other status is printed and
  \<^verbatim>\<open>None\<close> is returned.
\<close>

definition build_request :: "string \<Rightarrow> json \<Rightarrow> int \<Rightarrow> request" where
  "build_request user after_cursor post_count =
     \<lparr>username = user,
      after = (if truthy after_cursor then Some after_cursor else None),
      first = post_count\<rparr>"

definition fetch_instagram_posts ::
  "remote \<Rightarrow> string \<Rightarrow> json \<Rightarrow> int \<Rightarrow> world \<Rightarrow> (error + json) \<times> world" where
  "fetch_instagram_posts srv user after_cursor post_count w =
     (let w' = w\<lparr>requests := Suc (requests w)\<rparr> in
      case srv (requests w) (build_request user after_cursor post_count) of
        Net_Exception \<Rightarrow> (Inl ConnectionError, w')
      | Http status b \<Rightarrow>
          if status = 200 then
            (case b of
               Invalid_Body \<Rightarrow> (Inl JSONDecodeError, w')
             | Json_Body v \<Rightarrow> (Inr v, w'))
          else (Inr JNull, print (Failed_To_Fetch status) w'))"

section \<open>The pagination loop\<close>

text \<open>
  The chain \<^verbatim>\<open>response.get("data", {}).get(CONNECTION, {}).get(key, default)\<close> of lines
  225 to 227 and 246 to 248.
\<close>

definition connection :: "json \<Rightarrow> string \<Rightarrow> json \<Rightarrow> error + json" where
  "connection response k d =
     (case py_get response ''data'' (JObj []) of
        Inl e \<Rightarrow> Inl e
      | Inr dat \<Rightarrow>
          (case py_get dat ''xdt_api__v1__feed__user_timeline_graphql_connection'' (JObj []) of
             Inl e \<Rightarrow> Inl e
           | Inr conn \<Rightarrow> py_get conn k d))"

text \<open>The body of the \<^verbatim>\<open>for\<close> loop of lines 235 to 238, over the items left.\<close>

fun append_edges :: "json list \<Rightarrow> json \<Rightarrow> json \<Rightarrow> error + (json \<times> json)" where
  "append_edges [] all_posts downloaded_count = Inr (all_posts, downloaded_count)"
| "append_edges (edge # es) all_posts downloaded_count =
     (case py_get edge ''node'' (JObj []) of
        Inl e \<Rightarrow> Inl e
      | Inr post_node \<Rightarrow>
          (case py_append all_posts post_node of
             Inl e \<Rightarrow> Inl e
           | Inr all_posts' \<Rightarrow>
               (case py_incr downloaded_count of
                  Inl e \<Rightarrow> Inl e
                | Inr downloaded_count' \<Rightarrow> append_edges es all_posts' downloaded_count')))"

fun py_len :: "json \<Rightarrow> nat" where
  "py_len (JArr xs) = length xs"
| "py_len (JObj kvs) = length kvs"
| "py_len (JStr s) = length s"
| "py_len _ = 0"

text \<open>
  The local variables of the loop: \<^verbatim>\<open>all_posts\<close>, \<^verbatim>\<open>after_cursor\<close> and
  \<^verbatim>\<open>downloaded_count\<close>. One pass through the body of \<^verbatim>\<open>while True\<close>, lines 213 to
  256, ends in \<^verbatim>\<open>break\<close>, in an exception, or at the end of the body with new values
  of the variables.
\<close>

type_synonym vars = "json \<times> json \<times> json"

datatype step = Continue vars | Break | Raise error

definition write_posts :: "world \<Rightarrow> string \<Rightarrow> json \<Rightarrow> world" where
  "write_posts w output_file all_posts =
     w\<lparr>files := (files w)(output_file \<mapsto> Json_Doc all_posts),
       journal := journal w @ [Posts_Written output_file all_posts]\<rparr>"

definition paginate ::
  "string \<Rightarrow> json \<Rightarrow> json \<Rightarrow> json \<Rightarrow> world \<Rightarrow> step \<times> world" where
  "paginate resume_file response all_posts downloaded_count w =
     (case connection response ''page_info'' (JObj []) of
        Inl e \<Rightarrow> (Raise e, w)
      | Inr page_info \<Rightarrow>
          (case py_get page_info ''has_next_page'' JNull of
             Inl e \<Rightarrow> (Raise e, w)
           | Inr has_next \<Rightarrow>
               if truthy has_next then
                 (case py_get page_info ''end_cursor'' JNull of
                    Inl e \<Rightarrow> (Raise e, w)
                  | Inr after_cursor \<Rightarrow>
                      (Continue (all_posts, after_cursor, downloaded_count),
                       save_resume_state w resume_file after_cursor downloaded_count))
               else (Break, print Reached_End w)))"

definition store_page ::
  "string \<Rightarrow> string \<Rightarrow> json \<Rightarrow> json \<Rightarrow> json \<Rightarrow> json \<Rightarrow> world \<Rightarrow> step \<times> world" where
  "store_page output_file resume_file response edges all_posts downloaded_count w =
     (case py_iter edges of
        Inl e \<Rightarrow> (Raise e, w)
      | Inr es \<Rightarrow>
          (case append_edges es all_posts downloaded_count of
             Inl e \<Rightarrow> (Raise e, w)
           | Inr (all_posts', downloaded_count') \<Rightarrow>
               paginate resume_file response all_posts' downloaded_count'
                 (print (Saved (py_len all_posts') output_file)
                    (write_posts w output_file all_posts'))))"

definition iteration ::
  "remote \<Rightarrow> string \<Rightarrow> string \<Rightarrow> string \<Rightarrow> int \<Rightarrow> vars \<Rightarrow> world \<Rightarrow> step \<times> world" where
  "iteration srv user output_file resume_file batch_size vs w =
     (case vs of (all_posts, after_cursor, downloaded_count) \<Rightarrow>
        (case fetch_instagram_posts srv user after_cursor batch_size
                (print (Fetching_Next batch_size downloaded_count) w) of
           (Inl e, w1) \<Rightarrow> (Raise e, w1)
         | (Inr response, w1) \<Rightarrow>
             if \<not> truthy response then (Break, print No_Response w1)
             else
               (case connection response ''edges'' (JArr []) of
                  Inl e \<Rightarrow> (Raise e, w1)
                | Inr edges \<Rightarrow>
                    if \<not> truthy edges then (Break, print No_More_Posts w1)
                    else store_page output_file resume_file response edges
                           all_posts downloaded_count w1)))"

text \<open>
  The loop has no bound of its own, so it is run on a budget of passes. A run ends by
  returning, by an exception that leaves the function, or is stopped at the head of the
  loop when the budget is used up: before the first pass, or after a pass that reached
  the end of the body, with posts and state both written.
\<close>

datatype outcome = Returned | Raised error | Interrupted

fun iterate_loop ::
  "nat \<Rightarrow> remote \<Rightarrow> string \<Rightarrow> string \<Rightarrow> string \<Rightarrow> int \<Rightarrow> vars \<Rightarrow> world \<Rightarrow> outcome \<times> world" where
  "iterate_loop 0 srv user output_file resume_file batch_size vs w = (Interrupted, w)"
| "iterate_loop (Suc n) srv user output_file resume_file batch_size vs w =
     (case iteration srv user output_file resume_file batch_size vs w of
        (Continue vs', w') \<Rightarrow> iterate_loop n srv user output_file resume_file batch_size vs' w'
      | (Break, w') \<Rightarrow> (Returned, w')
      | (Raise e, w') \<Rightarrow> (Raised e, w'))"

text \<open>\<^verbatim>\<open>iterate_and_save_posts\<close>, lines 207 to 256.\<close>

definition iterate_and_save_posts ::
  "nat \<Rightarrow> remote \<Rightarrow> string \<Rightarrow> string \<Rightarrow> string \<Rightarrow> int \<Rightarrow> world \<Rightarrow> outcome \<times> world" where
  "iterate_and_save_posts n srv user output_file resume_file batch_size w =
     (case load_existing_posts w output_file of
        Inl e \<Rightarrow> (Raised e, w)
      | Inr all_posts \<Rightarrow>
          (case load_resume_state w resume_file of
             Inl e \<Rightarrow> (Raised e, w)
           | Inr (after_cursor, downloaded_count) \<Rightarrow>
               iterate_loop n srv user output_file resume_file batch_size
                 (all_posts, after_cursor, downloaded_count) w))"

text \<open>Whether a decoded value is a list.\<close>

fun is_list :: "json \<Rightarrow> bool" where
  "is_list (JArr xs) = True"
| "is_list _ = False"

text \<open>The counts that the calls of \<^verbatim>\<open>save_resume_state\<close> recorded in a journal stored.\<close>

fun written_counts :: "event list \<Rightarrow> json list" where
  "written_counts [] = []"
| "written_counts (State_Written p c n # evs) = n # written_counts evs"
| "written_counts (Posts_Written p v # evs) = written_counts evs"

section \<open>An endpoint with three pages\<close>

text \<open>
  Three responses of the shape the loop reads, two posts each: the first two name a next
  page, the third is the last. The endpoint serves them by cursor, whenever it is asked.
\<close>

definition example_page :: "int \<Rightarrow> int \<Rightarrow> json \<Rightarrow> json \<Rightarrow> json" where
  "example_page i j has_next cursor =
     JObj [(''data'', JObj [(''xdt_api__v1__feed__user_timeline_graphql_connection'',
       JObj [(''edges'', JArr [JObj [(''node'', JObj [(''id'', JInt i)])],
                               JObj [(''node'', JObj [(''id'', JInt j)])]]),
             (''page_info'', JObj [(''has_next_page'', has_next),
                                   (''end_cursor'', cursor)])])])]"

definition example_remote :: remote where
  "example_remote t req =
     (if after req = None then
        Http 200 (Json_Body (example_page 1 2 (JBool True) (JStr ''c1'')))
      else if after req = Some (JStr ''c1'') then
        Http 200 (Json_Body (example_page 3 4 (JBool True) (JStr ''c2'')))
      else if after req = Some (JStr ''c2'') then
        Http 200 (Json_Body (example_page 5 6 (JBool False) JNull))
      else Http 400 Invalid_Body)"

definition fresh_world :: world where
  "fresh_world = \<lparr>files = Map.empty, console = [], journal = [], requests = 0\<rparr>"

text \<open>A disk with one hundred stored posts and the state of a run stopped at \<^verbatim>\<open>abc123\<close>.\<close>

definition stored_world :: world where
  "stored_world =
     \<lparr>files = [''resume_state_natgeo_01.json'' \<mapsto>
                 Json_Doc (JObj [(''after_cursor'', JStr ''abc123''), (''post_count'', JInt 100)]),
               ''instagram_posts_natgeo_01.json'' \<mapsto>
                 Json_Doc (JArr (replicate 100 (JObj [])))],
      console = [], journal = [], requests = 0\<rparr>"

section \<open>Loading and saving\<close>

lemma load_resume_state_undecodable:
  "files w resume_file = Some f \<Longrightarrow> json_load f = Inl e \<Longrightarrow>
   load_resume_state w resume_file = Inl e"
  by (simp add: load_resume_state_def)

lemma load_resume_state_absent:
  "files w resume_file = None \<Longrightarrow> load_resume_state w resume_file = Inr (JNull, JInt 0)"
  by (simp add: load_resume_state_def)

text \<open>
  C1. A state file that is no valid JSON is not taken as a fresh start: the decode error
  of \<^verbatim>\<open>json.load\<close> leaves \<^verbatim>\<open>load_resume_state\<close>, where \<^verbatim>\<open>load_existing_posts\<close>
  catches the same error. Here the state file of the entry point holds malformed text.
\<close>

theorem load_resume_state_malformed_raises:
  "load_resume_state
     \<lparr>files = [''resume_state_natgeo_01.json'' \<mapsto> Malformed],
      console = [], journal = [], requests = 0\<rparr>
     ''resume_state_natgeo_01.json'' = Inl JSONDecodeError"
  by (simp add: load_resume_state_def)

lemma load_existing_posts_fallback:
  "files w output_file = None \<or> files w output_file = Some Empty_Text
     \<or> files w output_file = Some Malformed
   \<Longrightarrow> load_existing_posts w output_file = Inr (JArr [])"
  by (auto simp: load_existing_posts_def)

lemma load_existing_posts_undecodable_bytes:
  "files w output_file = Some Not_Utf8 \<Longrightarrow>
   load_existing_posts w output_file = Inl UnicodeDecodeError"
  by (simp add: load_existing_posts_def)

text \<open>
  C5. A posts file that is absent, empty, or holds text that is no JSON gives the empty
  list. A posts file whose bytes are no UTF-8 cannot be parsed as JSON either, and there
  \<^verbatim>\<open>load_existing_posts\<close> raises: the error of the read is a \<^verbatim>\<open>UnicodeDecodeError\<close>,
  which \<^verbatim>\<open>except json.JSONDecodeError\<close> does not catch, although the docstring promises
  the empty list for a file that cannot be loaded as valid JSON and \<^verbatim>\<open>load_json_file\<close>
  catches this error. Here the posts file of the entry point holds such bytes, and the run
  that starts from it ends with the error before any request is sent.
\<close>

theorem load_existing_posts_not_utf8_raises:
  "load_existing_posts
     \<lparr>files = [''instagram_posts_natgeo_01.json'' \<mapsto> Not_Utf8],
      console = [], journal = [], requests = 0\<rparr>
     ''instagram_posts_natgeo_01.json'' = Inl UnicodeDecodeError
   \<and> iterate_and_save_posts (Suc 0) example_remote ''natgeo''
       ''instagram_posts_natgeo_01.json'' ''resume_state_natgeo_01.json'' 50
       \<lparr>files = [''instagram_posts_natgeo_01.json'' \<mapsto> Not_Utf8],
        console = [], journal = [], requests = 0\<rparr>
     = (Raised UnicodeDecodeError,
        \<lparr>files = [''instagram_posts_natgeo_01.json'' \<mapsto> Not_Utf8],
         console = [], journal = [], requests = 0\<rparr>)"
  by (simp add: load_existing_posts_def iterate_and_save_posts_def)

text \<open>
  C10. When the posts file holds a JSON document that is not a list,
  \<^verbatim>\<open>load_existing_posts\<close> returns the decoded value as it is, not the empty list, so
  what the loop receives need not be a list.
\<close>

theorem load_existing_posts_verbatim:
  assumes "files w output_file = Some (Json_Doc v)" and "\<not> is_list v"
  shows "load_existing_posts w output_file = Inr v
         \<and> load_existing_posts w output_file \<noteq> Inr (JArr [])
         \<and> (\<exists>r. load_existing_posts w output_file = Inr r \<and> \<not> is_list r)"
  using assms by (auto simp: load_existing_posts_def)

theorem load_existing_posts_verbatim_witness:
  "load_existing_posts
     \<lparr>files = [''instagram_posts_natgeo_01.json'' \<mapsto> Json_Doc (JObj [(''id'', JInt 7)])],
      console = [], journal = [], requests = 0\<rparr>
     ''instagram_posts_natgeo_01.json'' = Inr (JObj [(''id'', JInt 7)])"
  using load_existing_posts_verbatim
    [of "\<lparr>files = [''instagram_posts_natgeo_01.json'' \<mapsto> Json_Doc (JObj [(''id'', JInt 7)])],
          console = [], journal = [], requests = 0\<rparr>"
        "''instagram_posts_natgeo_01.json''" "JObj [(''id'', JInt 7)]"]
  by simp

text \<open>
  C6. For a state file that holds an object with a string under \<^verbatim>\<open>after_cursor\<close> and a
  non-negative integer under \<^verbatim>\<open>post_count\<close>, \<^verbatim>\<open>load_resume_state\<close> returns the two
  values, and \<^verbatim>\<open>save_resume_state\<close> called with them writes a file that holds the
  same value under each of the two keys and loads to the same pair.
\<close>

theorem resume_state_load_save:
  assumes "files w resume_file = Some (Json_Doc (JObj kvs))"
    and "map_of kvs ''after_cursor'' = Some (JStr c)"
    and "map_of kvs ''post_count'' = Some (JInt n)"
    and "0 \<le> n"
  shows "load_resume_state w resume_file = Inr (JStr c, JInt n)
    \<and> (\<exists>kvs'. files (save_resume_state w resume_file (JStr c) (JInt n)) resume_file
                 = Some (Json_Doc (JObj kvs'))
          \<and> map_of kvs' ''after_cursor'' = map_of kvs ''after_cursor''
          \<and> map_of kvs' ''post_count'' = map_of kvs ''post_count'')
    \<and> load_resume_state (save_resume_state w resume_file (JStr c) (JInt n)) resume_file
        = load_resume_state w resume_file"
  using assms by (simp add: load_resume_state_def save_resume_state_def)

theorem resume_state_load_save_witness:
  "load_resume_state
     \<lparr>files = [''resume_state_natgeo_01.json'' \<mapsto>
         Json_Doc (JObj [(''post_count'', JInt 100), (''after_cursor'', JStr ''abc123'')])],
      console = [], journal = [], requests = 0\<rparr>
     ''resume_state_natgeo_01.json'' = Inr (JStr ''abc123'', JInt 100)
   \<and> load_resume_state
       (save_resume_state
          \<lparr>files = [''resume_state_natgeo_01.json'' \<mapsto>
              Json_Doc (JObj [(''post_count'', JInt 100), (''after_cursor'', JStr ''abc123'')])],
           console = [], journal = [], requests = 0\<rparr>
          ''resume_state_natgeo_01.json'' (JStr ''abc123'') (JInt 100))
       ''resume_state_natgeo_01.json'' = Inr (JStr ''abc123'', JInt 100)"
  using resume_state_load_save
    [of "\<lparr>files = [''resume_state_natgeo_01.json'' \<mapsto>
            Json_Doc (JObj [(''post_count'', JInt 100), (''after_cursor'', JStr ''abc123'')])],
          console = [], journal = [], requests = 0\<rparr>"
        "''resume_state_natgeo_01.json''"
        "[(''post_count'', JInt 100), (''after_cursor'', JStr ''abc123'')]"
        "''abc123''" 100]
  by simp

section \<open>One pass of the loop\<close>

lemmas run_defs = iterate_and_save_posts_def load_existing_posts_def load_resume_state_def
  iteration_def fetch_instagram_posts_def build_request_def connection_def store_page_def
  paginate_def print_def write_posts_def save_resume_state_def
  example_page_def example_remote_def fresh_world_def stored_world_def

lemma example_remote_stable: "stable_remote example_remote"
  by (simp add: stable_remote_def fun_eq_iff example_remote_def)

lemma fetch_frame:
  "fetch_instagram_posts srv user ac b w = (r, w') \<Longrightarrow>
   files w' = files w \<and> journal w' = journal w \<and> requests w' = Suc (requests w)"
  by (auto simp: fetch_instagram_posts_def print_def Let_def
           split: http_result.splits body.splits if_splits)

lemma paginate_cases:
  "paginate resume_file response ap dc w = (st, w') \<Longrightarrow>
   (\<exists>c. st = Continue (ap, c, dc) \<and> w' = save_resume_state w resume_file c dc)
   \<or> ((st = Break \<or> (\<exists>e. st = Raise e)) \<and> files w' = files w \<and> journal w' = journal w
        \<and> requests w' = requests w)"
  by (auto simp: paginate_def print_def split: sum.splits if_splits)

lemma append_edges_list:
  "append_edges es ap dc = Inr (ap', dc') \<Longrightarrow> es \<noteq> [] \<Longrightarrow> is_list ap'"
proof (induction es arbitrary: ap dc)
  case Nil then show ?case by simp
next
  case (Cons e es)
  then show ?case
    by (cases es; cases ap) (auto split: sum.splits)
qed

lemma append_edges_count:
  "append_edges es ap dc = Inr (ap', dc') \<Longrightarrow> es \<noteq> [] \<Longrightarrow>
   \<exists>k. dc' = JInt k \<and> (\<forall>j. dc = JInt j \<longrightarrow> k = j + int (length es))"
proof (induction es arbitrary: ap dc)
  case Nil then show ?case by simp
next
  case (Cons e es)
  show ?case
  proof (cases es)
    case Nil
    with Cons.prems show ?thesis
      by (cases dc) (auto split: sum.splits)
  next
    case (Cons e' es')
    from Cons.prems obtain ap1 dc1 where
      1: "py_incr dc = Inr dc1" and 2: "append_edges es ap1 dc1 = Inr (ap', dc')"
      by (auto split: sum.splits)
    from Cons.IH[OF 2] Cons obtain k where
      k: "dc' = JInt k" "\<forall>j. dc1 = JInt j \<longrightarrow> k = j + int (length es)" by auto
    with 1 show ?thesis by (cases dc) auto
  qed
qed

lemma store_page_cases:
  assumes "store_page output_file resume_file response edges ap dc w = (st, w')"
    and "truthy edges"
  shows "(\<exists>ap' c dc'. st = Continue (ap', c, dc') \<and> is_list ap'
            \<and> (\<exists>k. dc' = JInt k \<and> (\<forall>j. dc = JInt j \<longrightarrow> j < k))
            \<and> files w' = (files w)(output_file \<mapsto> Json_Doc ap', resume_file \<mapsto>
                 Json_Doc (JObj [(''after_cursor'', c), (''post_count'', dc')]))
            \<and> journal w' = journal w @ [Posts_Written output_file ap', State_Written resume_file c dc']
            \<and> requests w' = requests w)
   \<or> ((st = Break \<or> (\<exists>e. st = Raise e)) \<and> requests w' = requests w \<and>
       ((files w' = files w \<and> journal w' = journal w)
        \<or> (\<exists>ap'. files w' = (files w)(output_file \<mapsto> Json_Doc ap')
              \<and> journal w' = journal w @ [Posts_Written output_file ap'])))"
proof (cases "py_iter edges")
  case (Inl e)
  with assms show ?thesis by (auto simp: store_page_def)
next
  case (Inr es)
  with assms(2) have ne: "es \<noteq> []" by (cases edges) auto
  show ?thesis
  proof (cases "append_edges es ap dc")
    case (Inl e)
    with Inr assms show ?thesis by (auto simp: store_page_def)
  next
    case (Inr r)
    obtain ap' dc' where r: "r = (ap', dc')" by (cases r)
    let ?w1 = "print (Saved (py_len ap') output_file) (write_posts w output_file ap')"
    from assms \<open>py_iter edges = Inr es\<close> Inr r
    have p: "paginate resume_file response ap' dc' ?w1 = (st, w')"
      by (simp add: store_page_def)
    from append_edges_count[OF Inr[unfolded r] ne] obtain k where
      k: "dc' = JInt k" "\<forall>j. dc = JInt j \<longrightarrow> k = j + int (length es)" by blast
    have lt: "\<forall>j. dc = JInt j \<longrightarrow> j < k" using k ne by (cases es) auto
    have l: "is_list ap'" using append_edges_list[OF Inr[unfolded r] ne] .
    from paginate_cases[OF p] show ?thesis
    proof
      assume "\<exists>c. st = Continue (ap', c, dc') \<and> w' = save_resume_state ?w1 resume_file c dc'"
      then obtain c where "st = Continue (ap', c, dc')" "w' = save_resume_state ?w1 resume_file c dc'"
        by blast
      with k lt l show ?thesis
        by (auto simp: save_resume_state_def print_def write_posts_def)
    next
      assume "(st = Break \<or> (\<exists>e. st = Raise e)) \<and> files w' = files ?w1 \<and> journal w' = journal ?w1
        \<and> requests w' = requests ?w1"
      then show ?thesis
        by (auto simp: print_def write_posts_def)
    qed
  qed
qed


lemma iteration_cases:
  assumes "iteration srv user output_file resume_file batch_size (ap, ac, dc) w = (st, w')"
  shows "requests w' = Suc (requests w) \<and>
   ((\<exists>ap' c dc'. st = Continue (ap', c, dc') \<and> is_list ap'
            \<and> (\<exists>k. dc' = JInt k \<and> (\<forall>j. dc = JInt j \<longrightarrow> j < k))
            \<and> files w' = (files w)(output_file \<mapsto> Json_Doc ap', resume_file \<mapsto>
                 Json_Doc (JObj [(''after_cursor'', c), (''post_count'', dc')]))
            \<and> journal w' = journal w @ [Posts_Written output_file ap', State_Written resume_file c dc'])
   \<or> ((st = Break \<or> (\<exists>e. st = Raise e)) \<and>
       ((files w' = files w \<and> journal w' = journal w)
        \<or> (\<exists>ap'. files w' = (files w)(output_file \<mapsto> Json_Doc ap')
              \<and> journal w' = journal w @ [Posts_Written output_file ap']))))"
proof -
  let ?w0 = "print (Fetching_Next batch_size dc) w"
  obtain r w1 where f: "fetch_instagram_posts srv user ac batch_size ?w0 = (r, w1)"
    by (cases "fetch_instagram_posts srv user ac batch_size ?w0")
  from fetch_frame[OF f] have fr: "files w1 = files w" "journal w1 = journal w"
    "requests w1 = Suc (requests w)" by (simp_all add: print_def)
  show ?thesis
  proof (cases r)
    case (Inl e)
    with assms f fr show ?thesis by (auto simp: iteration_def)
  next
    case (Inr response)
    show ?thesis
    proof (cases "truthy response")
      case False
      with assms f fr Inr show ?thesis by (auto simp: iteration_def print_def)
    next
      case True
      show ?thesis
      proof (cases "connection response ''edges'' (JArr [])")
        case (Inl e)
        with assms f fr Inr True show ?thesis by (auto simp: iteration_def)
      next
        case edges: (Inr edges)
        show ?thesis
        proof (cases "truthy edges")
          case False
          with assms f fr Inr True edges show ?thesis by (auto simp: iteration_def print_def)
        next
          case t: True
          with assms f Inr True edges
          have "store_page output_file resume_file response edges ap dc w1 = (st, w')"
            by (simp add: iteration_def)
          from store_page_cases[OF this t] fr show ?thesis by auto
        qed
      qed
    qed
  qed
qed

lemma iterate_loop_counts:
  "\<exists>evs ns. journal (snd (iterate_loop n srv user output_file resume_file batch_size (ap, ac, dc) w))
       = journal w @ evs
     \<and> written_counts evs = map JInt ns \<and> sorted_wrt (<) ns
     \<and> (\<forall>j. dc = JInt j \<longrightarrow> (\<forall>k\<in>set ns. j < k))"
proof (induction n arbitrary: ap ac dc w)
  case 0
  have "journal w = journal w @ [] \<and> written_counts [] = map JInt [] \<and> sorted_wrt (<) ([]::int list)"
    by simp
  then show ?case by fastforce
next
  case (Suc n)
  let ?run = "iterate_loop (Suc n) srv user output_file resume_file batch_size (ap, ac, dc) w"
  obtain st w' where it: "iteration srv user output_file resume_file batch_size (ap, ac, dc) w = (st, w')"
    by (cases "iteration srv user output_file resume_file batch_size (ap, ac, dc) w")
  note ic = iteration_cases[OF it]
  have stop: "\<exists>evs ns. journal w' = journal w @ evs
     \<and> written_counts evs = map JInt ns \<and> sorted_wrt (<) ns
     \<and> (\<forall>j. dc = JInt j \<longrightarrow> (\<forall>k\<in>set ns. j < k))" if "\<forall>vs. st \<noteq> Continue vs"
  proof -
    from ic that have "journal w' = journal w @ []
        \<or> (\<exists>ap'. journal w' = journal w @ [Posts_Written output_file ap'])"
      by auto
    then obtain evs where "journal w' = journal w @ evs" "written_counts evs = []"
      by auto
    then have "journal w' = journal w @ evs \<and> written_counts evs = map JInt []
        \<and> sorted_wrt (<) ([]::int list) \<and> (\<forall>j. dc = JInt j \<longrightarrow> (\<forall>k\<in>set []. j < k))"
      by simp
    then show ?thesis by blast
  qed
  show ?case
  proof (cases st)
    case (Continue vs')
    with ic obtain ap' c k where vs': "vs' = (ap', c, JInt k)"
      and lt: "\<forall>j. dc = JInt j \<longrightarrow> j < k"
      and jr: "journal w' = journal w @ [Posts_Written output_file ap', State_Written resume_file c (JInt k)]"
      by auto
    from Suc.IH[of ap' c "JInt k" w'] obtain evs ns where
      ih: "journal (snd (iterate_loop n srv user output_file resume_file batch_size (ap', c, JInt k) w'))
             = journal w' @ evs"
        "written_counts evs = map JInt ns" "sorted_wrt (<) ns" "\<forall>k'\<in>set ns. k < k'"
      by auto
    let ?evs = "[Posts_Written output_file ap', State_Written resume_file c (JInt k)] @ evs"
    have "journal (snd ?run) = journal w @ ?evs"
      using it Continue vs' jr ih by simp
    moreover have "written_counts ?evs = map JInt (k # ns)" using ih by simp
    moreover have "sorted_wrt (<) (k # ns)" using ih by simp
    moreover have "\<forall>j. dc = JInt j \<longrightarrow> (\<forall>k'\<in>set (k # ns). j < k')"
      using lt ih(4) by fastforce
    ultimately show ?thesis by blast
  next
    case Break
    then have "snd ?run = w'" using it by simp
    with stop Break show ?thesis by simp
  next
    case (Raise e)
    then have "snd ?run = w'" using it by simp
    with stop Raise show ?thesis by simp
  qed
qed

lemma connection_truthy:
  assumes "connection response k d = Inr v" and "v \<noteq> d"
  shows "truthy response"
proof (cases response)
  case (JObj kvs)
  with assms show ?thesis
    by (cases kvs) (auto simp: connection_def)
qed (use assms in \<open>simp_all add: connection_def\<close>)

text \<open>
  C4. When the response has status 200 and the edge list extracted from it is empty
  (or falsy in another way), the pass through the loop is the last one: the loop returns,
  and neither file is written, the files and the record of writes being what they were.
\<close>

theorem empty_page_stops_unmodified:
  assumes page: "srv (requests w) (build_request user after_cursor batch_size)
                 = Http 200 (Json_Body response)"
    and edges: "connection response ''edges'' (JArr []) = Inr edges"
    and empty: "\<not> truthy edges"
  shows "\<exists>w'. iterate_loop (Suc n) srv user output_file resume_file batch_size
                 (all_posts, after_cursor, downloaded_count) w = (Returned, w')
     \<and> files w' = files w \<and> journal w' = journal w
     \<and> (truthy response \<longrightarrow>
           console w' = console w @ [Fetching_Next batch_size downloaded_count, No_More_Posts])"
  using assms
  by (simp add: iteration_def fetch_instagram_posts_def print_def)


theorem empty_page_stops_unmodified_witness:
  "fst (iterate_loop (Suc 0) (\<lambda>t req. Http 200 (Json_Body (JObj [(''data'', JObj [])])))
          ''natgeo'' ''instagram_posts_natgeo_01.json'' ''resume_state_natgeo_01.json'' 50
          (JArr (replicate 100 (JObj [])), JStr ''abc123'', JInt 100) stored_world) = Returned
   \<and> files (snd (iterate_loop (Suc 0) (\<lambda>t req. Http 200 (Json_Body (JObj [(''data'', JObj [])])))
          ''natgeo'' ''instagram_posts_natgeo_01.json'' ''resume_state_natgeo_01.json'' 50
          (JArr (replicate 100 (JObj [])), JStr ''abc123'', JInt 100) stored_world))
       = files stored_world
   \<and> journal (snd (iterate_loop (Suc 0) (\<lambda>t req. Http 200 (Json_Body (JObj [(''data'', JObj [])])))
          ''natgeo'' ''instagram_posts_natgeo_01.json'' ''resume_state_natgeo_01.json'' 50
          (JArr (replicate 100 (JObj [])), JStr ''abc123'', JInt 100) stored_world))
       = journal stored_world"
proof -
  from empty_page_stops_unmodified
    [where srv = "\<lambda>t req. Http 200 (Json_Body (JObj [(''data'', JObj [])]))"
       and w = stored_world and user = "''natgeo''" and after_cursor = "JStr ''abc123''"
       and batch_size = 50 and response = "JObj [(''data'', JObj [])]" and edges = "JArr []"
       and n = 0 and output_file = "''instagram_posts_natgeo_01.json''"
       and resume_file = "''resume_state_natgeo_01.json''"
       and all_posts = "JArr (replicate 100 (JObj []))" and downloaded_count = "JInt 100"]
  obtain w' where "iterate_loop (Suc 0) (\<lambda>t req. Http 200 (Json_Body (JObj [(''data'', JObj [])])))
          ''natgeo'' ''instagram_posts_natgeo_01.json'' ''resume_state_natgeo_01.json'' 50
          (JArr (replicate 100 (JObj [])), JStr ''abc123'', JInt 100) stored_world = (Returned, w')"
    and "files w' = files stored_world" and "journal w' = journal stored_world"
    by (auto simp: connection_def simp del: iterate_loop.simps)
  then show ?thesis by (simp del: iterate_loop.simps)
qed

lemma failed_fetch_stops_loop:
  assumes failed: "srv (requests w) (build_request user after_cursor batch_size) = Http status b"
    and status: "status \<noteq> 200"
    and exc: "srv' (requests w) (build_request user after_cursor batch_size) = Net_Exception"
  shows "fetch_instagram_posts srv user after_cursor batch_size w
         = (Inr JNull, w\<lparr>console := console w @ [Failed_To_Fetch status],
                          requests := Suc (requests w)\<rparr>)
     \<and> (\<exists>w'. iterate_loop (Suc n) srv user output_file resume_file batch_size
                 (all_posts, after_cursor, downloaded_count) w = (Returned, w')
           \<and> files w' = files w \<and> journal w' = journal w \<and> requests w' = Suc (requests w)
           \<and> console w' = console w @
                [Fetching_Next batch_size downloaded_count, Failed_To_Fetch status, No_Response])
     \<and> (\<exists>w'. iterate_loop (Suc n) srv' user output_file resume_file batch_size
                 (all_posts, after_cursor, downloaded_count) w = (Raised ConnectionError, w')
           \<and> files w' = files w \<and> journal w' = journal w \<and> requests w' = Suc (requests w))"
  using assms
  by (simp add: iteration_def fetch_instagram_posts_def print_def)

text \<open>
  C7. A response with a status other than 200 is printed by \<^verbatim>\<open>fetch_instagram_posts\<close>,
  which returns \<^verbatim>\<open>None\<close> after its one request, and the loop prints that no response
  was received and returns with no file written. A network exception does not get the same
  treatment: \<^verbatim>\<open>requests.get\<close> at line 78 and the call at line 216 are not guarded, so the
  exception leaves \<^verbatim>\<open>fetch_instagram_posts\<close> and the loop, no \<^verbatim>\<open>None\<close> is returned and
  no message is printed, although the docstrings promise \<^verbatim>\<open>None\<close> for a failed fetch
  and name a server that does not respond as a case of \<^verbatim>\<open>response is None\<close>. Here the
  two runs start from the same stored files.
\<close>

theorem network_exception_leaves_loop:
  "iterate_and_save_posts (Suc 0) (\<lambda>t req. Net_Exception) ''natgeo''
       ''instagram_posts_natgeo_01.json'' ''resume_state_natgeo_01.json'' 50 stored_world
     = (Raised ConnectionError,
        stored_world\<lparr>console := [Fetching_Next 50 (JInt 100)], requests := Suc 0\<rparr>)
   \<and> iterate_and_save_posts (Suc 0) (\<lambda>t req. Http 429 Invalid_Body) ''natgeo''
       ''instagram_posts_natgeo_01.json'' ''resume_state_natgeo_01.json'' 50 stored_world
     = (Returned,
        stored_world\<lparr>console := [Fetching_Next 50 (JInt 100), Failed_To_Fetch 429, No_Response],
                      requests := Suc 0\<rparr>)"
  by (simp add: run_defs)

text \<open>
  C9. When the fetch succeeds with status 200 and a body whose decoded value is falsy,
  the loop prints that no response was received and returns, as it does when the fetch
  failed with another status; the two runs differ in the message of the fetcher only.
\<close>

theorem falsy_body_taken_as_no_response:
  assumes page: "srv (requests w) (build_request user after_cursor batch_size)
                 = Http 200 (Json_Body response)"
    and falsy: "\<not> truthy response"
    and failed: "srv' (requests w) (build_request user after_cursor batch_size) = Http status b"
    and status: "status \<noteq> 200"
  shows "iterate_loop (Suc n) srv user output_file resume_file batch_size
            (all_posts, after_cursor, downloaded_count) w
         = (Returned, w\<lparr>console := console w @
                [Fetching_Next batch_size downloaded_count, No_Response],
              requests := Suc (requests w)\<rparr>)
     \<and> iterate_loop (Suc n) srv' user output_file resume_file batch_size
            (all_posts, after_cursor, downloaded_count) w
         = (Returned, w\<lparr>console := console w @
                [Fetching_Next batch_size downloaded_count, Failed_To_Fetch status, No_Response],
              requests := Suc (requests w)\<rparr>)"
  using assms
  by (simp add: iteration_def fetch_instagram_posts_def print_def)


theorem falsy_body_taken_as_no_response_witness:
  "iterate_loop (Suc 0) (\<lambda>t req. Http 200 (Json_Body (JObj [])))
      ''natgeo'' ''instagram_posts_natgeo_01.json'' ''resume_state_natgeo_01.json'' 50
      (JArr [], JNull, JInt 0) fresh_world
   = (Returned, fresh_world\<lparr>console := console fresh_world @
          [Fetching_Next 50 (JInt 0), No_Response],
        requests := Suc (requests fresh_world)\<rparr>)
   \<and> iterate_loop (Suc 0) (\<lambda>t req. Http 500 Invalid_Body)
      ''natgeo'' ''instagram_posts_natgeo_01.json'' ''resume_state_natgeo_01.json'' 50
      (JArr [], JNull, JInt 0) fresh_world
   = (Returned, fresh_world\<lparr>console := console fresh_world @
          [Fetching_Next 50 (JInt 0), Failed_To_Fetch 500, No_Response],
        requests := Suc (requests fresh_world)\<rparr>)"
proof -
  from falsy_body_taken_as_no_response
    [where srv = "\<lambda>t req. Http 200 (Json_Body (JObj []))"
       and srv' = "\<lambda>t req. Http 500 Invalid_Body" and status = 500 and b = Invalid_Body
       and response = "JObj []"
       and w = fresh_world and user = "''natgeo''" and after_cursor = JNull
       and batch_size = 50
       and n = 0 and output_file = "''instagram_posts_natgeo_01.json''"
       and resume_file = "''resume_state_natgeo_01.json''"
       and all_posts = "JArr []" and downloaded_count = "JInt 0"]
  show ?thesis by (simp del: iterate_loop.simps)
qed

text \<open>
  C2. When the loaded state is \<^verbatim>\<open>abc123\<close> with count 100, the stored collection has
  100 posts, and the page fetched next has exactly two edges and \<^verbatim>\<open>has_next_page\<close>
  false, the run appends the two posts, writes the collection of 102 posts, prints the
  completion message and returns; it writes no state, so the state file is as it was and
  still loads to \<^verbatim>\<open>abc123\<close>.
\<close>

theorem last_page_keeps_cursor:
  assumes st: "load_resume_state w resume_file = Inr (JStr ''abc123'', JInt 100)"
    and posts: "load_existing_posts w output_file = Inr (JArr posts)"
    and len: "length posts = 100"
    and page: "srv (requests w) (build_request user (JStr ''abc123'') batch_size)
                 = Http 200 (Json_Body response)"
    and edges: "connection response ''edges'' (JArr []) = Inr (JArr [JObj e1, JObj e2])"
    and info: "connection response ''page_info'' (JObj []) = Inr page_info"
    and last: "py_get page_info ''has_next_page'' JNull = Inr (JBool False)"
    and n1: "py_get (JObj e1) ''node'' (JObj []) = Inr node1"
    and n2: "py_get (JObj e2) ''node'' (JObj []) = Inr node2"
  shows "\<exists>w'. iterate_and_save_posts (Suc n) srv user output_file resume_file batch_size w
            = (Returned, w')
     \<and> files w' output_file = Some (Json_Doc (JArr (posts @ [node1, node2])))
     \<and> length (posts @ [node1, node2]) = 102
     \<and> files w' resume_file = files w resume_file
     \<and> load_resume_state w' resume_file = Inr (JStr ''abc123'', JInt 100)
     \<and> journal w' = journal w @ [Posts_Written output_file (JArr (posts @ [node1, node2]))]
     \<and> console w' = console w @
          [Fetching_Next batch_size (JInt 100), Saved 102 output_file, Reached_End]"
proof -
  have ne: "output_file \<noteq> resume_file"
  proof
    assume eq: "output_file = resume_file"
    from st obtain f where f: "files w resume_file = Some f"
      by (cases "files w resume_file") (auto simp: load_resume_state_def)
    with st obtain v where v: "json_load f = Inr v"
      by (cases "json_load f") (auto simp: load_resume_state_def)
    with st f obtain c where "py_get v ''after_cursor'' JNull = Inr c"
      by (cases "py_get v ''after_cursor'' JNull") (auto simp: load_resume_state_def)
    then obtain kvs where "v = JObj kvs" by (cases v) auto
    with v f have "files w resume_file = Some (Json_Doc (JObj kvs))"
      by (cases f) auto
    with posts eq show False by (simp add: load_existing_posts_def)
  qed
  have t: "truthy response" using connection_truthy[OF edges] by simp
  let ?w' = "print Reached_End (print (Saved (py_len (JArr (posts @ [node1, node2]))) output_file)
     (write_posts ((print (Fetching_Next batch_size (JInt 100)) w)\<lparr>requests := Suc (requests w)\<rparr>)
        output_file (JArr (posts @ [node1, node2]))))"
  have f: "fetch_instagram_posts srv user (JStr ''abc123'') batch_size
             (print (Fetching_Next batch_size (JInt 100)) w)
           = (Inr response, (print (Fetching_Next batch_size (JInt 100)) w)\<lparr>requests := Suc (requests w)\<rparr>)"
    using page by (simp add: fetch_instagram_posts_def print_def)
  have a: "append_edges [JObj e1, JObj e2] (JArr posts) (JInt 100)
           = Inr (JArr (posts @ [node1, node2]), JInt 102)"
    using n1 n2 by simp
  have "iteration srv user output_file resume_file batch_size (JArr posts, JStr ''abc123'', JInt 100) w
        = (Break, ?w')"
    using f t edges info last a
    by (simp add: iteration_def store_page_def paginate_def)
  then have run: "iterate_and_save_posts (Suc n) srv user output_file resume_file batch_size w
      = (Returned, ?w')"
    using st posts by (simp add: iterate_and_save_posts_def)
  have "files ?w' resume_file = files w resume_file"
    using ne by (simp add: print_def write_posts_def)
  moreover from this st have "load_resume_state ?w' resume_file = Inr (JStr ''abc123'', JInt 100)"
    by (simp add: load_resume_state_def)
  ultimately show ?thesis
    using run len by (simp add: print_def write_posts_def)
qed


theorem last_page_keeps_cursor_witness:
  "fst (iterate_and_save_posts (Suc 0)
          (\<lambda>t req. Http 200 (Json_Body (example_page 5 6 (JBool False) JNull)))
          ''natgeo'' ''instagram_posts_natgeo_01.json'' ''resume_state_natgeo_01.json'' 50
          stored_world) = Returned
   \<and> files (snd (iterate_and_save_posts (Suc 0)
          (\<lambda>t req. Http 200 (Json_Body (example_page 5 6 (JBool False) JNull)))
          ''natgeo'' ''instagram_posts_natgeo_01.json'' ''resume_state_natgeo_01.json'' 50
          stored_world)) ''instagram_posts_natgeo_01.json''
       = Some (Json_Doc (JArr (replicate 100 (JObj [])
            @ [JObj [(''id'', JInt 5)], JObj [(''id'', JInt 6)]])))
   \<and> load_resume_state (snd (iterate_and_save_posts (Suc 0)
          (\<lambda>t req. Http 200 (Json_Body (example_page 5 6 (JBool False) JNull)))
          ''natgeo'' ''instagram_posts_natgeo_01.json'' ''resume_state_natgeo_01.json'' 50
          stored_world)) ''resume_state_natgeo_01.json''
       = Inr (JStr ''abc123'', JInt 100)"
proof -
  have st: "load_resume_state stored_world ''resume_state_natgeo_01.json''
              = Inr (JStr ''abc123'', JInt 100)"
    by (simp add: load_resume_state_def stored_world_def)
  have posts: "load_existing_posts stored_world ''instagram_posts_natgeo_01.json''
              = Inr (JArr (replicate 100 (JObj [])))"
    by (simp add: load_existing_posts_def stored_world_def)
  have edges: "connection (example_page 5 6 (JBool False) JNull) ''edges'' (JArr [])
       = Inr (JArr [JObj [(''node'', JObj [(''id'', JInt 5)])],
                    JObj [(''node'', JObj [(''id'', JInt 6)])]])"
    by (simp add: connection_def example_page_def)
  have info: "connection (example_page 5 6 (JBool False) JNull) ''page_info'' (JObj [])
       = Inr (JObj [(''has_next_page'', JBool False), (''end_cursor'', JNull)])"
    by (simp add: connection_def example_page_def)
  from last_page_keeps_cursor
    [where srv = "\<lambda>t req. Http 200 (Json_Body (example_page 5 6 (JBool False) JNull))"
       and w = stored_world and user = "''natgeo''" and batch_size = 50
       and response = "example_page 5 6 (JBool False) JNull"
       and output_file = "''instagram_posts_natgeo_01.json''"
       and resume_file = "''resume_state_natgeo_01.json''"
       and posts = "replicate 100 (JObj [])"
       and ?e1.0 = "[(''node'', JObj [(''id'', JInt 5)])]"
       and ?e2.0 = "[(''node'', JObj [(''id'', JInt 6)])]"
       and page_info = "JObj [(''has_next_page'', JBool False), (''end_cursor'', JNull)]"
       and ?node1.0 = "JObj [(''id'', JInt 5)]" and ?node2.0 = "JObj [(''id'', JInt 6)]"
       and n = 0, OF st posts _ _ edges info]
  obtain w' where "iterate_and_save_posts (Suc 0)
          (\<lambda>t req. Http 200 (Json_Body (example_page 5 6 (JBool False) JNull)))
          ''natgeo'' ''instagram_posts_natgeo_01.json'' ''resume_state_natgeo_01.json'' 50
          stored_world = (Returned, w')"
    and "files w' ''instagram_posts_natgeo_01.json''
       = Some (Json_Doc (JArr (replicate 100 (JObj [])
            @ [JObj [(''id'', JInt 5)], JObj [(''id'', JInt 6)]])))"
    and "load_resume_state w' ''resume_state_natgeo_01.json'' = Inr (JStr ''abc123'', JInt 100)"
    by auto
  then show ?thesis by simp
qed

section \<open>Whole runs\<close>

text \<open>
  C8. In a run of \<^verbatim>\<open>iterate_and_save_posts\<close>, however long it is followed, the counts
  that \<^verbatim>\<open>save_resume_state\<close> writes are integers and each is at least as large as
  every count written before it in the run.
\<close>

theorem persisted_count_monotone:
  "\<exists>evs ns. journal (snd (iterate_and_save_posts n srv user output_file resume_file batch_size w))
       = journal w @ evs
     \<and> written_counts evs = map JInt ns \<and> sorted ns"
proof (cases "\<exists>ap ac dc. load_existing_posts w output_file = Inr ap
                \<and> load_resume_state w resume_file = Inr (ac, dc)")
  case True
  then obtain ap ac dc where "load_existing_posts w output_file = Inr ap"
    "load_resume_state w resume_file = Inr (ac, dc)" by blast
  then have "iterate_and_save_posts n srv user output_file resume_file batch_size w
     = iterate_loop n srv user output_file resume_file batch_size (ap, ac, dc) w"
    by (simp add: iterate_and_save_posts_def)
  with iterate_loop_counts[of n srv user output_file resume_file batch_size ap ac dc w]
  show ?thesis using strict_sorted_imp_sorted by auto
next
  case False
  then have "snd (iterate_and_save_posts n srv user output_file resume_file batch_size w) = w"
    by (auto simp: iterate_and_save_posts_def split: sum.splits)
  then have "journal (snd (iterate_and_save_posts n srv user output_file resume_file batch_size w))
       = journal w @ [] \<and> written_counts [] = map JInt [] \<and> sorted ([]::int list)"
    by simp
  then show ?thesis by blast
qed



theorem persisted_count_monotone_witness:
  "\<exists>evs ns. journal (snd (iterate_and_save_posts (Suc (Suc (Suc 0))) example_remote ''natgeo''
        ''instagram_posts_natgeo_01.json'' ''resume_state_natgeo_01.json'' 50 fresh_world))
       = journal fresh_world @ evs
     \<and> written_counts evs = map JInt ns \<and> sorted ns"
  using persisted_count_monotone
    [of "Suc (Suc (Suc 0))" example_remote "''natgeo''" "''instagram_posts_natgeo_01.json''"
        "''resume_state_natgeo_01.json''" 50 fresh_world]
  by simp

lemma loads_files_only:
  assumes "files wa = files wb"
  shows "load_existing_posts wa p = load_existing_posts wb p"
    and "load_resume_state wa p = load_resume_state wb p"
  using assms by (simp_all add: load_existing_posts_def load_resume_state_def)

lemma fetch_files_only:
  assumes "srv (requests wa) = srv (requests wb)"
  shows "fst (fetch_instagram_posts srv user ac b wa) = fst (fetch_instagram_posts srv user ac b wb)"
  using assms
  by (simp add: fetch_instagram_posts_def Let_def split: http_result.splits body.splits)

lemma paginate_files_only:
  assumes "files wa = files wb"
  shows "fst (paginate resume_file response ap dc wa) = fst (paginate resume_file response ap dc wb)
    \<and> files (snd (paginate resume_file response ap dc wa))
        = files (snd (paginate resume_file response ap dc wb))"
  using assms
  by (simp add: paginate_def print_def save_resume_state_def split: sum.splits)

lemma store_page_files_only:
  assumes "files wa = files wb"
  shows "fst (store_page output_file resume_file response edges ap dc wa)
       = fst (store_page output_file resume_file response edges ap dc wb)
    \<and> files (snd (store_page output_file resume_file response edges ap dc wa))
       = files (snd (store_page output_file resume_file response edges ap dc wb))"
proof (cases "py_iter edges")
  case (Inl e)
  with assms show ?thesis by (simp add: store_page_def)
next
  case (Inr es)
  show ?thesis
  proof (cases "append_edges es ap dc")
    case (Inl e)
    with Inr assms show ?thesis by (simp add: store_page_def)
  next
    case r: (Inr r)
    obtain ap' dc' where "r = (ap', dc')" by (cases r)
    with Inr r assms show ?thesis
      using paginate_files_only
        [of "print (Saved (py_len ap') output_file) (write_posts wa output_file ap')"
            "print (Saved (py_len ap') output_file) (write_posts wb output_file ap')"
            resume_file response ap' dc']
      by (simp add: store_page_def print_def write_posts_def)
  qed
qed

lemma iteration_files_only:
  assumes "stable_remote srv" and "files wa = files wb"
  shows "fst (iteration srv user output_file resume_file batch_size vs wa)
       = fst (iteration srv user output_file resume_file batch_size vs wb)
    \<and> files (snd (iteration srv user output_file resume_file batch_size vs wa))
       = files (snd (iteration srv user output_file resume_file batch_size vs wb))"
proof -
  obtain ap ac dc where vs: "vs = (ap, ac, dc)" by (cases vs)
  let ?wa = "print (Fetching_Next batch_size dc) wa"
  let ?wb = "print (Fetching_Next batch_size dc) wb"
  obtain ra wa1 where fa: "fetch_instagram_posts srv user ac batch_size ?wa = (ra, wa1)"
    by (cases "fetch_instagram_posts srv user ac batch_size ?wa")
  obtain rb wb1 where fb: "fetch_instagram_posts srv user ac batch_size ?wb = (rb, wb1)"
    by (cases "fetch_instagram_posts srv user ac batch_size ?wb")
  from assms(1) have "srv (requests ?wa) = srv (requests ?wb)"
    unfolding stable_remote_def by metis
  from fetch_files_only[OF this, of user ac batch_size] fa fb have "ra = rb" by simp
  with fb have fb: "fetch_instagram_posts srv user ac batch_size ?wb = (ra, wb1)" by simp
  from fetch_frame[OF fa] fetch_frame[OF fb] assms(2) have f1: "files wa1 = files wb1"
    by (simp add: print_def)
  show ?thesis
  proof (cases ra)
    case (Inl e)
    with vs fa fb f1 show ?thesis by (simp add: iteration_def)
  next
    case (Inr response)
    show ?thesis
    proof (cases "connection response ''edges'' (JArr [])")
      case (Inl e)
      with Inr vs fa fb f1 show ?thesis by (simp add: iteration_def print_def)
    next
      case edges: (Inr edges)
      with Inr vs fa fb f1 show ?thesis
        using store_page_files_only[OF f1, of output_file resume_file response edges ap dc]
        by (simp add: iteration_def print_def)
    qed
  qed
qed

lemma iterate_loop_files_only:
  assumes "stable_remote srv" and "files wa = files wb"
  shows "fst (iterate_loop n srv user output_file resume_file batch_size vs wa)
       = fst (iterate_loop n srv user output_file resume_file batch_size vs wb)
    \<and> files (snd (iterate_loop n srv user output_file resume_file batch_size vs wa))
       = files (snd (iterate_loop n srv user output_file resume_file batch_size vs wb))"
  using assms(2)
proof (induction n arbitrary: vs wa wb)
  case 0
  then show ?case by simp
next
  case (Suc n)
  obtain sa wa' where a: "iteration srv user output_file resume_file batch_size vs wa = (sa, wa')"
    by (cases "iteration srv user output_file resume_file batch_size vs wa")
  obtain sb wb' where b: "iteration srv user output_file resume_file batch_size vs wb = (sb, wb')"
    by (cases "iteration srv user output_file resume_file batch_size vs wb")
  from iteration_files_only[OF assms(1) Suc.prems, of user output_file resume_file batch_size vs] a b
  have eq: "sb = sa" "files wa' = files wb'" by simp_all
  from b eq(1) have b: "iteration srv user output_file resume_file batch_size vs wb = (sa, wb')"
    by simp
  show ?case
  proof (cases sa)
    case (Continue vs')
    with a b Suc.IH[OF eq(2), of vs'] show ?thesis by simp
  next
    case Break
    with a b eq(2) show ?thesis by simp
  next
    case (Raise e)
    with a b eq(2) show ?thesis by simp
  qed
qed

lemma iteration_persists:
  assumes "iteration srv user output_file resume_file batch_size vs w = (Continue vs', w')"
    and "output_file \<noteq> resume_file"
  shows "load_existing_posts w' output_file = Inr (fst vs')
    \<and> load_resume_state w' resume_file = Inr (snd vs')"
proof -
  obtain ap ac dc where vs: "vs = (ap, ac, dc)" by (cases vs)
  from iteration_cases[OF assms(1)[unfolded vs]] obtain ap' c dc' where
    "vs' = (ap', c, dc')"
    "files w' = (files w)(output_file \<mapsto> Json_Doc ap', resume_file \<mapsto>
                 Json_Doc (JObj [(''after_cursor'', c), (''post_count'', dc')]))"
    by auto
  with assms(2) show ?thesis
    by (simp add: load_existing_posts_def load_resume_state_def)
qed

lemma iterate_loop_resume:
  assumes "output_file \<noteq> resume_file"
    and "iterate_loop n srv user output_file resume_file batch_size vs w = (Interrupted, w1)"
    and "iterate_loop m srv user output_file resume_file batch_size vs w = (out, w2)"
    and "out \<noteq> Interrupted"
    and "0 < n"
  shows "\<exists>vs1. load_existing_posts w1 output_file = Inr (fst vs1)
    \<and> load_resume_state w1 resume_file = Inr (snd vs1)
    \<and> n \<le> m
    \<and> iterate_loop (m - n) srv user output_file resume_file batch_size vs1 w1 = (out, w2)"
  using assms(2-5)
proof (induction n arbitrary: vs w m)
  case 0
  then show ?case by simp
next
  case (Suc n)
  obtain st w' where it: "iteration srv user output_file resume_file batch_size vs w = (st, w')"
    by (cases "iteration srv user output_file resume_file batch_size vs w")
  from Suc.prems(1) it obtain vs' where st: "st = Continue vs'"
    and n: "iterate_loop n srv user output_file resume_file batch_size vs' w' = (Interrupted, w1)"
    by (cases st) auto
  from Suc.prems(2,3) obtain m' where m: "m = Suc m'" by (cases m) auto
  with Suc.prems(2) it st
  have m': "iterate_loop m' srv user output_file resume_file batch_size vs' w' = (out, w2)"
    by simp
  show ?case
  proof (cases n)
    case 0
    with n have "w1 = w'" by simp
    with iteration_persists[OF it[unfolded st] assms(1)] m m' 0 show ?thesis
      by auto
  next
    case (Suc k)
    with Suc.IH[OF n m' Suc.prems(3)] m show ?thesis by auto
  qed
qed

text \<open>
  C3. Against a stable endpoint and with the two files at different paths: when a run is
  stopped at the head of the loop after \<open>n\<close> passes that wrote posts and state, and the
  run left alone ends after \<open>m\<close> passes, then a second run started from the files the
  stopped run left (whatever else differs) ends the same way within \<open>m - n\<close> passes and
  leaves the same files, so the same post collection.
\<close>

theorem resume_same_collection:
  assumes "stable_remote srv"
    and "output_file \<noteq> resume_file"
    and "iterate_and_save_posts n srv user output_file resume_file batch_size w = (Interrupted, w1)"
    and "iterate_and_save_posts m srv user output_file resume_file batch_size w = (out, w2)"
    and "out \<noteq> Interrupted"
    and "files w1' = files w1"
  shows "n \<le> m \<and>
    fst (iterate_and_save_posts (m - n) srv user output_file resume_file batch_size w1') = out
    \<and> files (snd (iterate_and_save_posts (m - n) srv user output_file resume_file batch_size w1'))
        = files w2"
proof -
  from assms(3) obtain ap ac dc where
    la: "load_existing_posts w output_file = Inr ap"
    and ls: "load_resume_state w resume_file = Inr (ac, dc)"
    by (auto simp: iterate_and_save_posts_def split: sum.splits)
  let ?vs = "(ap, ac, dc)"
  from assms(3,4) la ls have
    n: "iterate_loop n srv user output_file resume_file batch_size ?vs w = (Interrupted, w1)"
    and m: "iterate_loop m srv user output_file resume_file batch_size ?vs w = (out, w2)"
    by (simp_all add: iterate_and_save_posts_def)
  show ?thesis
  proof (cases n)
    case 0
    with n have w1: "w1 = w" by simp
    with assms(6) have f: "files w1' = files w" by simp
    from loads_files_only[OF f] la ls have
      "iterate_and_save_posts m srv user output_file resume_file batch_size w1'
       = iterate_loop m srv user output_file resume_file batch_size ?vs w1'"
      by (simp add: iterate_and_save_posts_def)
    with iterate_loop_files_only[OF assms(1) f, of m user output_file resume_file batch_size ?vs]
      m 0 show ?thesis by simp
  next
    case (Suc k)
    then have "0 < n" by simp
    from iterate_loop_resume[OF assms(2) n m assms(5) this] obtain vs1 where
      l1: "load_existing_posts w1 output_file = Inr (fst vs1)"
      and l2: "load_resume_state w1 resume_file = Inr (snd vs1)"
      and le: "n \<le> m"
      and r: "iterate_loop (m - n) srv user output_file resume_file batch_size vs1 w1 = (out, w2)"
      by blast
    from loads_files_only[OF assms(6)] l1 l2 have
      "iterate_and_save_posts (m - n) srv user output_file resume_file batch_size w1'
       = iterate_loop (m - n) srv user output_file resume_file batch_size vs1 w1'"
      by (cases vs1) (simp add: iterate_and_save_posts_def)
    with iterate_loop_files_only[OF assms(1) assms(6), of "m - n" user output_file resume_file batch_size vs1]
      r le show ?thesis by simp
  qed
qed



theorem resume_same_collection_witness:
  "stable_remote example_remote
   \<and> fst (iterate_and_save_posts (Suc 0) example_remote ''natgeo''
        ''instagram_posts_natgeo_01.json'' ''resume_state_natgeo_01.json'' 50 fresh_world)
       = Interrupted
   \<and> fst (iterate_and_save_posts (Suc (Suc (Suc 0))) example_remote ''natgeo''
        ''instagram_posts_natgeo_01.json'' ''resume_state_natgeo_01.json'' 50 fresh_world)
       = Returned
   \<and> fst (iterate_and_save_posts (Suc (Suc 0)) example_remote ''natgeo''
        ''instagram_posts_natgeo_01.json'' ''resume_state_natgeo_01.json'' 50
        ((snd (iterate_and_save_posts (Suc 0) example_remote ''natgeo''
           ''instagram_posts_natgeo_01.json'' ''resume_state_natgeo_01.json'' 50 fresh_world))
         \<lparr>console := [], journal := [], requests := 0\<rparr>))
       = Returned
   \<and> files (snd (iterate_and_save_posts (Suc (Suc 0)) example_remote ''natgeo''
        ''instagram_posts_natgeo_01.json'' ''resume_state_natgeo_01.json'' 50
        ((snd (iterate_and_save_posts (Suc 0) example_remote ''natgeo''
           ''instagram_posts_natgeo_01.json'' ''resume_state_natgeo_01.json'' 50 fresh_world))
         \<lparr>console := [], journal := [], requests := 0\<rparr>)))
       ''instagram_posts_natgeo_01.json''
     = Some (Json_Doc (JArr [JObj [(''id'', JInt 1)], JObj [(''id'', JInt 2)],
          JObj [(''id'', JInt 3)], JObj [(''id'', JInt 4)],
          JObj [(''id'', JInt 5)], JObj [(''id'', JInt 6)]]))"
proof -
  let ?run = "\<lambda>n. iterate_and_save_posts n example_remote ''natgeo''
        ''instagram_posts_natgeo_01.json'' ''resume_state_natgeo_01.json'' 50"
  let ?w1 = "snd (?run (Suc 0) fresh_world)"
  let ?w2 = "snd (?run (Suc (Suc (Suc 0))) fresh_world)"
  let ?w1' = "?w1\<lparr>console := [], journal := [], requests := 0\<rparr>"
  have ne: "''instagram_posts_natgeo_01.json'' \<noteq> ''resume_state_natgeo_01.json''" by simp
  have i: "fst (?run (Suc 0) fresh_world) = Interrupted" by (simp add: run_defs)
  then have stopped: "?run (Suc 0) fresh_world = (Interrupted, ?w1)"
    by (metis prod.collapse)
  have r: "fst (?run (Suc (Suc (Suc 0))) fresh_world) = Returned" by (simp add: run_defs)
  then have whole: "?run (Suc (Suc (Suc 0))) fresh_world = (Returned, ?w2)"
    by (metis prod.collapse)
  have f: "files ?w1' = files ?w1" by simp
  have p: "files ?w2 ''instagram_posts_natgeo_01.json''
     = Some (Json_Doc (JArr [JObj [(''id'', JInt 1)], JObj [(''id'', JInt 2)],
          JObj [(''id'', JInt 3)], JObj [(''id'', JInt 4)],
          JObj [(''id'', JInt 5)], JObj [(''id'', JInt 6)]]))"
    by (simp add: run_defs)
  have "Returned \<noteq> Interrupted" by simp
  from resume_same_collection[OF example_remote_stable ne stopped whole this f]
  have "fst (?run (Suc (Suc 0)) ?w1') = Returned"
    and "files (snd (?run (Suc (Suc 0)) ?w1')) = files ?w2"
    by simp_all
  with p i r example_remote_stable show ?thesis by simp
qed

end
